theory Spec2Isabelle
  imports Complex_Main "HOL-Library.Word" "HOL-Library.AList"
begin

section \<open>Values of the JavaScript runtime\<close>

text \<open>
  A JavaScript string is a sequence of UTF-16 code units; \<open>s.length\<close> counts code units
  and a regular expression without the \<open>u\<close> flag matches code units.  An ASCII literal
  of the source is embedded with \<open>js\<close>.
\<close>

type_synonym code_unit = "16 word"
type_synonym js_string = "code_unit list"

definition js :: "string \<Rightarrow> js_string" where
  "js s = map of_char s"

text \<open>
  The values a parsed request body can hold (\<open>express.json\<close>, \<open>express.urlencoded\<close>).
  A number is a double; only whether it is zero matters below, so it is carried as a
  real (a parsed body holds no NaN).  An object is the list of its own properties.
\<close>

datatype js_value =
    JUndefined
  | JNull
  | JBoolean bool
  | JNumber real
  | JString js_string
  | JArray "js_value list"
  | JObject "(js_string \<times> js_value) list"

text \<open>\<open>ToBoolean\<close>: what \<open>!v\<close> negates.\<close>

fun truthy :: "js_value \<Rightarrow> bool" where
  "truthy JUndefined = False"
| "truthy JNull = False"
| "truthy (JBoolean b) = b"
| "truthy (JNumber n) = (n \<noteq> 0)"
| "truthy (JString s) = (s \<noteq> [])"
| "truthy (JArray vs) = True"
| "truthy (JObject ps) = True"

text \<open>Reading a property of an object: \<open>undefined\<close> when the object has none of that name.\<close>

definition get_prop :: "(js_string \<times> js_value) list \<Rightarrow> js_string \<Rightarrow> js_value" where
  "get_prop obj name = (case map_of obj name of None \<Rightarrow> JUndefined | Some v \<Rightarrow> v)"

text \<open>
  \<open>String.prototype.trim\<close> strips the code units of ECMAScript's WhiteSpace and
  LineTerminator productions from both ends.
\<close>

definition is_white_space :: "code_unit \<Rightarrow> bool" where
  "is_white_space c \<longleftrightarrow>
     c = 0x0009 \<or> c = 0x000A \<or> c = 0x000B \<or> c = 0x000C \<or> c = 0x000D \<or> c = 0x0020 \<or>
     c = 0x00A0 \<or> c = 0x1680 \<or> (0x2000 \<le> c \<and> c \<le> 0x200A) \<or> c = 0x2028 \<or> c = 0x2029 \<or>
     c = 0x202F \<or> c = 0x205F \<or> c = 0x3000 \<or> c = 0xFEFF"

definition trim :: "js_string \<Rightarrow> js_string" where
  "trim s = rev (dropWhile is_white_space (rev (dropWhile is_white_space s)))"

section \<open>The Express request and what a middleware does with it\<close>

text \<open>
  Of the request, the middleware of this repository read \<open>req.ip\<close> (a string, or
  \<open>undefined\<close>), the properties of \<open>req.body\<close> and the route parameters \<open>req.params\<close>.
  A middleware either ends the exchange with \<open>res.status(code).json({success, error,
  timestamp})\<close> or calls \<open>next()\<close>, which hands the request object on to the next
  handler.  The timestamp of the reply is a second clock reading and is left out.
\<close>

record Request =
  ip :: "js_string option"
  body :: "(js_string \<times> js_value) list"
  params :: "(js_string \<times> js_string) list"

datatype outcome =
    Next Request
  | Json nat bool string

section \<open>RateLimiter\<close>

text \<open>
  \<open>RateLimitStore\<close> is a plain object used as a dictionary from \<open>req.ip\<close> to an entry;
  it is modelled by the list of its own properties in insertion order.  Reading
  \<open>store[key]\<close> is \<open>map_of\<close>, assigning is \<open>AList.update\<close>, \<open>delete store[key]\<close> is
  \<open>AList.delete\<close> and \<open>Object.keys\<close> is \<open>map fst\<close>.  An object holds a property name once:
  the well-formed stores are those of \<open>wf_store\<close>.
  The clock \<open>Date.now()\<close> is an argument, in milliseconds.  Counts and clock readings are
  integers far below \<open>2^53\<close>, where JavaScript's numbers are exact: they are \<open>int\<close>.
\<close>

record entry =
  count :: int
  resetTime :: int

type_synonym RateLimitStore = "(js_string \<times> entry) list"

record RateLimiter =
  store :: RateLimitStore
  maxRequests :: int
  windowMs :: int

definition wf_store :: "RateLimitStore \<Rightarrow> bool" where
  "wf_store s = distinct (map fst s)"

text \<open>
  The store is created as \<open>{}\<close>, so its prototype is \<open>Object.prototype\<close>, and reading
  \<open>this.store[key]\<close> for a key the store has no property of its own for goes on to the
  prototype: for the names below (ECMAScript's properties of \<open>Object.prototype\<close>, those of
  Annex B included) the value read is that member, a function or, for \<open>__proto__\<close>, the
  prototype itself; for every other name it is \<open>undefined\<close>.
\<close>

definition Object_prototype_names :: "js_string list" where
  "Object_prototype_names =
     map js [''constructor'', ''__defineGetter__'', ''__defineSetter__'', ''hasOwnProperty'',
       ''__lookupGetter__'', ''__lookupSetter__'', ''isPrototypeOf'', ''propertyIsEnumerable'',
       ''toString'', ''valueOf'', ''__proto__'', ''toLocaleString'']"

datatype slot = Undefined | Entry entry | Member

definition store_get :: "RateLimitStore \<Rightarrow> js_string \<Rightarrow> slot" where
  "store_get s key =
     (case map_of s key of
        Some e \<Rightarrow> Entry e
      | None \<Rightarrow> if key \<in> set Object_prototype_names then Member else Undefined)"

text \<open>The constructor, with its default arguments \<open>500\<close> and \<open>15 * 60 * 1000\<close>.\<close>

definition new_RateLimiter :: "int option \<Rightarrow> int option \<Rightarrow> RateLimiter" where
  "new_RateLimiter maxRequests' windowMs' =
     \<lparr>store = [],
      maxRequests = (case maxRequests' of None \<Rightarrow> 500 | Some m \<Rightarrow> m),
      windowMs = (case windowMs' of None \<Rightarrow> 15 * 60 * 1000 | Some w \<Rightarrow> w)\<rparr>"

text \<open>\<open>const key = req.ip || 'unknown'\<close>: an absent or empty address gives \<open>'unknown'\<close>.\<close>

definition request_key :: "Request \<Rightarrow> js_string" where
  "request_key req =
     (case ip req of
        None \<Rightarrow> js ''unknown''
      | Some a \<Rightarrow> if a = [] then js ''unknown'' else a)"

text \<open>
  \<open>middleware\<close>, by what \<open>this.store[key]\<close> reads.  When it reads a member of the
  prototype, the value is truthy, its \<open>resetTime\<close> is \<open>undefined\<close> and its \<open>count\<close> is
  \<open>undefined\<close>, so \<open>now > undefined\<close> and \<open>undefined >= maxRequests\<close> are both false;
  \<open>count++\<close> then writes \<open>NaN\<close> to the member (not to the store), which the later
  comparisons \<open>NaN >= maxRequests\<close> answer with false again, and \<open>next()\<close> is called.
\<close>

definition middleware :: "RateLimiter \<Rightarrow> Request \<Rightarrow> int \<Rightarrow> outcome \<times> RateLimiter" where
  "middleware rl req now =
     (let key = request_key req in
      case store_get (store rl) key of
        Undefined \<Rightarrow>
          (Next req,
           rl\<lparr>store := AList.update key \<lparr>count = 1, resetTime = now + windowMs rl\<rparr> (store rl)\<rparr>)
      | Entry e \<Rightarrow>
          if now > resetTime e then
            (Next req,
             rl\<lparr>store := AList.update key \<lparr>count = 1, resetTime = now + windowMs rl\<rparr> (store rl)\<rparr>)
          else if count e \<ge> maxRequests rl then
            (Json 429 False ''Too many requests'', rl)
          else
            (Next req, rl\<lparr>store := AList.update key (e\<lparr>count := count e + 1\<rparr>) (store rl)\<rparr>)
      | Member \<Rightarrow> (Next req, rl))"

text \<open>
  \<open>cleanup\<close> walks the keys the store had when it was called.  Reading \<open>resetTime\<close> of
  a key that is no longer there would throw a \<open>TypeError\<close>; that is a branch of the model.
\<close>

datatype error = TypeError

fun cleanup_keys :: "int \<Rightarrow> js_string list \<Rightarrow> RateLimitStore \<Rightarrow> error + RateLimitStore" where
  "cleanup_keys now [] s = Inr s"
| "cleanup_keys now (key # keys) s =
     (case map_of s key of
        None \<Rightarrow> Inl TypeError
      | Some e \<Rightarrow> cleanup_keys now keys (if now > resetTime e then AList.delete key s else s))"

definition cleanup :: "RateLimiter \<Rightarrow> int \<Rightarrow> error + RateLimiter" where
  "cleanup rl now =
     (case cleanup_keys now (map fst (store rl)) (store rl) of
        Inl err \<Rightarrow> Inl err
      | Inr s \<Rightarrow> Inr (rl\<lparr>store := s\<rparr>))"

text \<open>
  Runs of the limiter: \<open>checks\<close> feeds it one request after another, each with the clock
  reading of its arrival, and collects the outcomes; \<open>run\<close> interleaves requests with
  the periodic \<open>cleanup\<close> of \<open>server.ts\<close> and stops at the first error.
\<close>

fun checks :: "RateLimiter \<Rightarrow> (Request \<times> int) list \<Rightarrow> outcome list \<times> RateLimiter" where
  "checks rl [] = ([], rl)"
| "checks rl ((req, now) # calls) =
     (case middleware rl req now of
        (out, rl') \<Rightarrow> (case checks rl' calls of (outs, rl'') \<Rightarrow> (out # outs, rl'')))"

datatype event = Check Request int | Sweep int

fun run :: "RateLimiter \<Rightarrow> event list \<Rightarrow> error + RateLimiter" where
  "run rl [] = Inr rl"
| "run rl (Check req now # evs) = run (snd (middleware rl req now)) evs"
| "run rl (Sweep now # evs) =
     (case cleanup rl now of Inl err \<Rightarrow> Inl err | Inr rl' \<Rightarrow> run rl' evs)"

section \<open>Validation middleware\<close>

text \<open>
  \<open>validateFinancialQuery\<close> reads \<open>question\<close> from the body.  \<open>typeof question !==
  'string'\<close> is the case distinction on the value.
\<close>

definition validateFinancialQuery :: "Request \<Rightarrow> outcome" where
  "validateFinancialQuery req =
     (let question = get_prop (body req) (js ''question'') in
      if \<not> truthy question then Json 400 False ''Question is required''
      else
        (case question of
           JString s \<Rightarrow>
             if length (trim s) = 0 then Json 400 False ''Question cannot be empty''
             else if length s > 1000 then
               Json 400 False ''Question is too long (max 1000 characters)''
             else Next req
         | _ \<Rightarrow> Json 400 False ''Question must be a string''))"

text \<open>
  The regular expression \<open>/^[A-Za-z0-9-]+$/\<close> of \<open>validateSymbol\<close>: the class, and the
  match of \<open>[A-Za-z0-9-]+$\<close> from the start of the input (the expression has no flags, so
  \<open>$\<close> is the end of the input only).
\<close>

definition symbol_class :: "code_unit \<Rightarrow> bool" where
  "symbol_class c \<longleftrightarrow>
     (0x41 \<le> c \<and> c \<le> 0x5A) \<or> (0x61 \<le> c \<and> c \<le> 0x7A) \<or> (0x30 \<le> c \<and> c \<le> 0x39) \<or> c = 0x2D"

fun symbol_regex_test :: "js_string \<Rightarrow> bool" where
  "symbol_regex_test [] = False"
| "symbol_regex_test (c # cs) = (symbol_class c \<and> (cs = [] \<or> symbol_regex_test cs))"

definition validateSymbol :: "Request \<Rightarrow> outcome" where
  "validateSymbol req =
     (case map_of (params req) (js ''symbol'') of
        None \<Rightarrow> Json 400 False ''Symbol is required''
      | Some symbol \<Rightarrow>
          if symbol = [] then Json 400 False ''Symbol is required''
          else if \<not> symbol_regex_test symbol then Json 400 False ''Invalid symbol format''
          else Next req)"

text \<open>
  The classification of the question as the specification words it, for comparison with
  \<open>validateFinancialQuery\<close>: missing when the field is absent, wrong-type when it is
  present and not text, empty when the trimmed text has length zero, too-long when the
  text is longer than 1000, in this order.  The reasons are named by the messages the
  source sends for them.
\<close>

definition spec_validateQuestion :: "Request \<Rightarrow> outcome" where
  "spec_validateQuestion req =
     (case map_of (body req) (js ''question'') of
        None \<Rightarrow> Json 400 False ''Question is required''
      | Some (JString s) \<Rightarrow>
          if length (trim s) = 0 then Json 400 False ''Question cannot be empty''
          else if length s > 1000 then
            Json 400 False ''Question is too long (max 1000 characters)''
          else Next req
      | Some _ \<Rightarrow> Json 400 False ''Question must be a string'')"

section \<open>The four branches of the limiter\<close>

lemma store_get_entry:
  "map_of s k = Some e \<Longrightarrow> store_get s k = Entry e"
  by (simp add: store_get_def)

lemma store_get_undefined:
  "map_of s k = None \<Longrightarrow> k \<notin> set Object_prototype_names \<Longrightarrow> store_get s k = Undefined"
  by (simp add: store_get_def)

lemma store_get_member:
  "map_of s k = None \<Longrightarrow> k \<in> set Object_prototype_names \<Longrightarrow> store_get s k = Member"
  by (simp add: store_get_def)

lemma unknown_is_no_member:
  "js ''unknown'' \<notin> set Object_prototype_names"
  by (simp add: Object_prototype_names_def js_def)

lemma middleware_member:
  "map_of (store rl) (request_key req) = None \<Longrightarrow>
   request_key req \<in> set Object_prototype_names \<Longrightarrow>
   middleware rl req now = (Next req, rl)"
  by (simp add: middleware_def store_get_member)

lemma middleware_fresh:
  "map_of (store rl) (request_key req) = None \<Longrightarrow>
   request_key req \<notin> set Object_prototype_names \<Longrightarrow>
   middleware rl req now =
     (Next req, rl\<lparr>store := AList.update (request_key req)
        \<lparr>count = 1, resetTime = now + windowMs rl\<rparr> (store rl)\<rparr>)"
  by (simp add: middleware_def store_get_undefined)

lemma middleware_expired:
  "map_of (store rl) (request_key req) = Some e \<Longrightarrow> resetTime e < now \<Longrightarrow>
   middleware rl req now =
     (Next req, rl\<lparr>store := AList.update (request_key req)
        \<lparr>count = 1, resetTime = now + windowMs rl\<rparr> (store rl)\<rparr>)"
  by (simp add: middleware_def store_get_entry)

lemma middleware_increment:
  "map_of (store rl) (request_key req) = Some e \<Longrightarrow> now \<le> resetTime e \<Longrightarrow>
   count e < maxRequests rl \<Longrightarrow>
   middleware rl req now =
     (Next req, rl\<lparr>store := AList.update (request_key req) (e\<lparr>count := count e + 1\<rparr>) (store rl)\<rparr>)"
  by (simp add: middleware_def store_get_entry)

lemma middleware_denied:
  "map_of (store rl) (request_key req) = Some e \<Longrightarrow> now \<le> resetTime e \<Longrightarrow>
   maxRequests rl \<le> count e \<Longrightarrow>
   middleware rl req now = (Json 429 False ''Too many requests'', rl)"
  by (simp add: middleware_def store_get_entry)

section \<open>Runs of requests inside one window\<close>

lemma fst_checks_Cons:
  "fst (checks rl ((r, t) # calls)) =
     fst (middleware rl r t) # fst (checks (snd (middleware rl r t)) calls)"
  by (simp add: case_prod_beta)

lemma snd_checks_Cons:
  "snd (checks rl ((r, t) # calls)) = snd (checks (snd (middleware rl r t)) calls)"
  by (simp add: case_prod_beta)

text \<open>
  A key that names a member of \<open>Object.prototype\<close> and has no entry of its own is never
  counted: each of its requests gets \<open>next()\<close> and the limiter stays as it is.
\<close>

lemma checks_member:
  "map_of (store rl) k = None \<Longrightarrow> k \<in> set Object_prototype_names \<Longrightarrow>
   \<forall>(r, t) \<in> set calls. request_key r = k \<Longrightarrow>
   checks rl calls = (map (Next \<circ> fst) calls, rl)"
proof (induction calls)
  case Nil
  then show ?case by simp
next
  case (Cons c calls)
  obtain r t where c: "c = (r, t)" by (cases c)
  from Cons.prems c have key: "request_key r = k"
    and rest: "\<forall>(r, t) \<in> set calls. request_key r = k"
    by auto
  have m: "middleware rl r t = (Next r, rl)"
    using middleware_member [of rl r t] Cons.prems(1,2) key by simp
  show ?case
    using Cons.IH [OF Cons.prems(1,2) rest] by (simp add: c m)
qed

lemma checks_in_window:
  "map_of (store rl) k = Some e \<Longrightarrow>
   \<forall>(r, t) \<in> set calls. request_key r = k \<and> t \<le> resetTime e \<Longrightarrow>
   fst (checks rl calls) =
     map (Next \<circ> fst) (take (nat (maxRequests rl - count e)) calls) @
     replicate (length calls - nat (maxRequests rl - count e)) (Json 429 False ''Too many requests'')"
proof (induction calls arbitrary: rl e)
  case Nil
  then show ?case by simp
next
  case (Cons c calls)
  obtain r t where c: "c = (r, t)" by (cases c)
  from Cons.prems c have key: "request_key r = k" and t: "t \<le> resetTime e"
    and rest: "\<forall>(r, t) \<in> set calls. request_key r = k \<and> t \<le> resetTime e"
    by auto
  show ?case
  proof (cases "count e < maxRequests rl")
    case True
    let ?e' = "e\<lparr>count := count e + 1\<rparr>"
    let ?rl' = "rl\<lparr>store := AList.update k ?e' (store rl)\<rparr>"
    have m: "middleware rl r t = (Next r, ?rl')"
      using middleware_increment [of rl r e t] Cons.prems(1) key t True by simp
    have look: "map_of (store ?rl') k = Some ?e'"
      by (simp add: update_conv')
    have rest': "\<forall>(r, t) \<in> set calls. request_key r = k \<and> t \<le> resetTime ?e'"
      using rest by simp
    have ih: "fst (checks ?rl' calls) =
       map (Next \<circ> fst) (take (nat (maxRequests ?rl' - count ?e')) calls) @
       replicate (length calls - nat (maxRequests ?rl' - count ?e')) (Json 429 False ''Too many requests'')"
      by (rule Cons.IH [OF look rest'])
    have n: "nat (maxRequests rl - count e) = Suc (nat (maxRequests rl - (count e + 1)))"
      using True by simp
    show ?thesis
      using ih unfolding c fst_checks_Cons m n by simp
  next
    case False
    have m: "middleware rl r t = (Json 429 False ''Too many requests'', rl)"
      using middleware_denied [of rl r e t] Cons.prems(1) key t False by simp
    have ih: "fst (checks rl calls) =
       map (Next \<circ> fst) (take (nat (maxRequests rl - count e)) calls) @
       replicate (length calls - nat (maxRequests rl - count e)) (Json 429 False ''Too many requests'')"
      by (rule Cons.IH [OF Cons.prems(1) rest])
    have n: "nat (maxRequests rl - count e) = 0"
      using False by simp
    show ?thesis
      using ih unfolding c fst_checks_Cons m n by simp
  qed
qed

lemma checks_saturation:
  assumes fresh: "map_of (store rl) k = None"
    and own: "k \<notin> set Object_prototype_names"
    and N: "maxRequests rl = int N" "0 < N"
    and len: "length calls = N"
    and key0: "request_key r0 = k"
    and keys: "\<forall>(r, t) \<in> set calls. request_key r = k \<and> t \<le> t0 + windowMs rl"
  shows "fst (checks rl ((r0, t0) # calls)) =
     map (Next \<circ> fst) (take N ((r0, t0) # calls)) @ [Json 429 False ''Too many requests'']"
proof -
  let ?e = "\<lparr>count = 1, resetTime = t0 + windowMs rl\<rparr>"
  let ?rl' = "rl\<lparr>store := AList.update k ?e (store rl)\<rparr>"
  have m: "middleware rl r0 t0 = (Next r0, ?rl')"
    using middleware_fresh [of rl r0 t0] fresh own key0 by simp
  have look: "map_of (store ?rl') k = Some ?e"
    by (simp add: update_conv')
  have keys': "\<forall>(r, t) \<in> set calls. request_key r = k \<and> t \<le> resetTime ?e"
    using keys by simp
  have "fst (checks ?rl' calls) =
     map (Next \<circ> fst) (take (nat (maxRequests ?rl' - count ?e)) calls) @
     replicate (length calls - nat (maxRequests ?rl' - count ?e)) (Json 429 False ''Too many requests'')"
    by (rule checks_in_window [OF look keys'])
  moreover have "nat (maxRequests ?rl' - count ?e) = N - 1"
    using N by simp
  moreover have "length calls - (N - 1) = 1"
    using len N by simp
  moreover obtain M where "N = Suc M"
    using N(2) by (cases N) auto
  ultimately show ?thesis
    unfolding fst_checks_Cons m by simp
qed


lemma checks_in_window_entry:
  "map_of (store rl) k = Some e \<Longrightarrow>
   \<forall>(r, t) \<in> set calls. request_key r = k \<and> t \<le> resetTime e \<Longrightarrow>
   map_of (store (snd (checks rl calls))) k =
     Some (e\<lparr>count := count e + int (min (length calls) (nat (maxRequests rl - count e)))\<rparr>)
   \<and> maxRequests (snd (checks rl calls)) = maxRequests rl
   \<and> windowMs (snd (checks rl calls)) = windowMs rl"
proof (induction calls arbitrary: rl e)
  case Nil
  then show ?case by simp
next
  case (Cons c calls)
  obtain r t where c: "c = (r, t)" by (cases c)
  from Cons.prems c have key: "request_key r = k" and t: "t \<le> resetTime e"
    and rest: "\<forall>(r, t) \<in> set calls. request_key r = k \<and> t \<le> resetTime e"
    by auto
  show ?case
  proof (cases "count e < maxRequests rl")
    case True
    let ?e' = "e\<lparr>count := count e + 1\<rparr>"
    let ?rl' = "rl\<lparr>store := AList.update k ?e' (store rl)\<rparr>"
    have m: "middleware rl r t = (Next r, ?rl')"
      using middleware_increment [of rl r e t] Cons.prems(1) key t True by simp
    have look: "map_of (store ?rl') k = Some ?e'"
      by (simp add: update_conv')
    have rest': "\<forall>(r, t) \<in> set calls. request_key r = k \<and> t \<le> resetTime ?e'"
      using rest by simp
    note ih = Cons.IH [OF look rest']
    have n: "nat (maxRequests rl - count e) = Suc (nat (maxRequests rl - (count e + 1)))"
      using True by simp
    show ?thesis
      using ih unfolding c snd_checks_Cons m n by simp
  next
    case False
    have m: "middleware rl r t = (Json 429 False ''Too many requests'', rl)"
      using middleware_denied [of rl r e t] Cons.prems(1) key t False by simp
    note ih = Cons.IH [OF Cons.prems(1) rest]
    have n: "nat (maxRequests rl - count e) = 0"
      using False by simp
    show ?thesis
      using ih unfolding c snd_checks_Cons m n by simp
  qed
qed

lemma checks_from_fresh_entry:
  assumes fresh: "map_of (store rl) k = None"
    and own: "k \<notin> set Object_prototype_names"
    and key0: "request_key r0 = k"
    and keys: "\<forall>(r, t) \<in> set calls. request_key r = k \<and> t \<le> t0 + windowMs rl"
  shows "\<exists>c. map_of (store (snd (checks rl ((r0, t0) # calls)))) k =
            Some \<lparr>count = c, resetTime = t0 + windowMs rl\<rparr>
     \<and> c = 1 + int (min (length calls) (nat (maxRequests rl - 1)))
     \<and> maxRequests (snd (checks rl ((r0, t0) # calls))) = maxRequests rl
     \<and> windowMs (snd (checks rl ((r0, t0) # calls))) = windowMs rl"
proof -
  let ?e = "\<lparr>count = 1, resetTime = t0 + windowMs rl\<rparr>"
  let ?rl' = "rl\<lparr>store := AList.update k ?e (store rl)\<rparr>"
  have m: "middleware rl r0 t0 = (Next r0, ?rl')"
    using middleware_fresh [of rl r0 t0] fresh own key0 by simp
  have look: "map_of (store ?rl') k = Some ?e"
    by (simp add: update_conv')
  have keys': "\<forall>(r, t) \<in> set calls. request_key r = k \<and> t \<le> resetTime ?e"
    using keys by simp
  show ?thesis
    using checks_in_window_entry [OF look keys'] unfolding snd_checks_Cons m by simp
qed

section \<open>Window saturation\<close>



section \<open>Denied requests\<close>

text \<open>
  C2. Denied leaves the state unchanged.  For every limiter, request and clock reading,
  if \<open>middleware\<close> answers 429 (Denied), the limiter after the call is the limiter
  before it: the whole store (no entry created, removed or changed, the entry of the key
  with its \<open>count\<close> and \<open>resetTime\<close> included) and the configuration.
\<close>

theorem denied_leaves_state_unchanged:
  "fst (middleware rl req now) = Json 429 False ''Too many requests''
   \<Longrightarrow> snd (middleware rl req now) = rl"
  by (auto simp add: middleware_def Let_def split: slot.splits if_splits)

theorem denied_leaves_state_unchanged_witness:
  "fst (middleware \<lparr>store = [(js ''10.0.0.7'', \<lparr>count = 2, resetTime = 1005\<rparr>)],
          maxRequests = 2, windowMs = 1000\<rparr>
        \<lparr>ip = Some (js ''10.0.0.7''), body = [], params = []\<rparr> 700)
     = Json 429 False ''Too many requests''
   \<and> snd (middleware \<lparr>store = [(js ''10.0.0.7'', \<lparr>count = 2, resetTime = 1005\<rparr>)],
          maxRequests = 2, windowMs = 1000\<rparr>
        \<lparr>ip = Some (js ''10.0.0.7''), body = [], params = []\<rparr> 700)
     = \<lparr>store = [(js ''10.0.0.7'', \<lparr>count = 2, resetTime = 1005\<rparr>)],
          maxRequests = 2, windowMs = 1000\<rparr>"
proof -
  have d: "fst (middleware \<lparr>store = [(js ''10.0.0.7'', \<lparr>count = 2, resetTime = 1005\<rparr>)],
          maxRequests = 2, windowMs = 1000\<rparr>
        \<lparr>ip = Some (js ''10.0.0.7''), body = [], params = []\<rparr> 700)
     = Json 429 False ''Too many requests''"
    by (simp add: middleware_def store_get_def request_key_def js_def)
  show ?thesis
    using d denied_leaves_state_unchanged [OF d] by simp
qed


section \<open>First request and window reset\<close>



section \<open>The boundary of the window\<close>

text \<open>
  C5. The expiry boundary is strict.  For a key holding an entry \<open>e\<close>, a request that
  arrives when the clock reads \<open>resetTime e\<close> exactly is an ordinary increment attempt:
  Allowed with \<open>count\<close> incremented when \<open>count < maxRequests\<close>, Denied with the limiter
  unchanged otherwise.  More generally, as long as \<open>now \<le> resetTime e\<close> the entry is not
  replaced (it keeps its \<open>resetTime\<close>); it is replaced by \<open>count = 1\<close>,
  \<open>resetTime = now + windowMs\<close> when \<open>now > resetTime e\<close>.
\<close>

theorem expiry_boundary_is_strict:
  assumes "map_of (store rl) (request_key req) = Some e"
  shows "middleware rl req (resetTime e) =
      (if count e < maxRequests rl
       then (Next req, rl\<lparr>store := AList.update (request_key req)
               (e\<lparr>count := count e + 1\<rparr>) (store rl)\<rparr>)
       else (Json 429 False ''Too many requests'', rl))
   \<and> (now \<le> resetTime e \<longrightarrow>
        map_of (store (snd (middleware rl req now))) (request_key req) =
          Some (if count e < maxRequests rl then e\<lparr>count := count e + 1\<rparr> else e))
   \<and> (resetTime e < now \<longrightarrow>
        map_of (store (snd (middleware rl req now))) (request_key req) =
          Some \<lparr>count = 1, resetTime = now + windowMs rl\<rparr>)"
  using assms by (simp add: middleware_def store_get_entry update_conv')

theorem expiry_boundary_is_strict_witness:
  "middleware \<lparr>store = [(js ''10.0.0.7'', \<lparr>count = 1, resetTime = 1005\<rparr>)],
          maxRequests = 2, windowMs = 1000\<rparr>
        \<lparr>ip = Some (js ''10.0.0.7''), body = [], params = []\<rparr> 1005
     = (Next \<lparr>ip = Some (js ''10.0.0.7''), body = [], params = []\<rparr>,
        \<lparr>store = [(js ''10.0.0.7'', \<lparr>count = 2, resetTime = 1005\<rparr>)],
          maxRequests = 2, windowMs = 1000\<rparr>)
   \<and> map_of (store (snd (middleware
          \<lparr>store = [(js ''10.0.0.7'', \<lparr>count = 1, resetTime = 1005\<rparr>)],
            maxRequests = 2, windowMs = 1000\<rparr>
          \<lparr>ip = Some (js ''10.0.0.7''), body = [], params = []\<rparr> 1006)))
        (js ''10.0.0.7'') = Some \<lparr>count = 1, resetTime = 2006\<rparr>"
  using expiry_boundary_is_strict [of
      "\<lparr>store = [(js ''10.0.0.7'', \<lparr>count = 1, resetTime = 1005\<rparr>)],
          maxRequests = 2, windowMs = 1000\<rparr>"
      "\<lparr>ip = Some (js ''10.0.0.7''), body = [], params = []\<rparr>"
      "\<lparr>count = 1, resetTime = 1005\<rparr>" 1006]
  by (simp add: request_key_def js_def)


section \<open>Cleanup\<close>

lemma map_of_distinct_entry:
  "distinct (map fst s) \<Longrightarrow> (k, e) \<in> set s \<Longrightarrow> map_of s k = Some e"
  by simp

lemma cleanup_keys_filter:
  "distinct (map fst s) \<Longrightarrow> distinct ks \<Longrightarrow> set ks \<subseteq> fst ` set s \<Longrightarrow>
   cleanup_keys now ks s = Inr (filter (\<lambda>(k, e). k \<in> set ks \<longrightarrow> \<not> resetTime e < now) s)"
proof (induction ks arbitrary: s)
  case Nil
  then show ?case by simp
next
  case (Cons k ks)
  from Cons.prems(3) obtain e where in_s: "(k, e) \<in> set s"
    by auto
  with Cons.prems(1) have look: "map_of s k = Some e"
    by simp
  have only: "\<And>e'. (k, e') \<in> set s \<Longrightarrow> e' = e"
    using Cons.prems(1) look by (metis map_of_distinct_entry option.inject)
  from Cons.prems(2) have k_notin: "k \<notin> set ks" and dks: "distinct ks"
    by simp_all
  show ?case
  proof (cases "resetTime e < now")
    case True
    let ?s' = "AList.delete k s"
    have d': "distinct (map fst ?s')"
      using Cons.prems(1) by (rule distinct_delete)
    have sub': "set ks \<subseteq> fst ` set ?s'"
      using Cons.prems(3) k_notin by (force simp: AList.delete_eq)
    have "cleanup_keys now (k # ks) s = cleanup_keys now ks ?s'"
      using look True by simp
    also have "\<dots> = Inr (filter (\<lambda>(k, e). k \<in> set ks \<longrightarrow> \<not> resetTime e < now) ?s')"
      by (rule Cons.IH [OF d' dks sub'])
    also have "filter (\<lambda>(k, e). k \<in> set ks \<longrightarrow> \<not> resetTime e < now) ?s' =
        filter (\<lambda>(k', e'). k' \<in> set (k # ks) \<longrightarrow> \<not> resetTime e' < now) s"
      unfolding AList.delete_eq filter_filter
      by (rule filter_cong [OF refl]) (use only True in auto)
    finally show ?thesis .
  next
    case False
    have "cleanup_keys now (k # ks) s = cleanup_keys now ks s"
      using look False by simp
    also have "\<dots> = Inr (filter (\<lambda>(k, e). k \<in> set ks \<longrightarrow> \<not> resetTime e < now) s)"
      using Cons.prems(1) dks Cons.prems(3) by (intro Cons.IH) auto
    also have "filter (\<lambda>(k, e). k \<in> set ks \<longrightarrow> \<not> resetTime e < now) s =
        filter (\<lambda>(k', e'). k' \<in> set (k # ks) \<longrightarrow> \<not> resetTime e' < now) s"
      by (rule filter_cong [OF refl]) (use only False in auto)
    finally show ?thesis .
  qed
qed

lemma cleanup_filter:
  assumes "wf_store (store rl)"
  shows "cleanup rl now = Inr (rl\<lparr>store := filter (\<lambda>(k, e). \<not> resetTime e < now) (store rl)\<rparr>)"
proof -
  have d: "distinct (map fst (store rl))"
    using assms by (simp add: wf_store_def)
  have "cleanup_keys now (map fst (store rl)) (store rl) =
      Inr (filter (\<lambda>(k, e). k \<in> set (map fst (store rl)) \<longrightarrow> \<not> resetTime e < now) (store rl))"
    using d by (intro cleanup_keys_filter) auto
  also have "filter (\<lambda>(k, e). k \<in> set (map fst (store rl)) \<longrightarrow> \<not> resetTime e < now) (store rl) =
      filter (\<lambda>(k, e). \<not> resetTime e < now) (store rl)"
    by (rule filter_cong [OF refl]) force
  finally show ?thesis
    by (simp add: cleanup_def)
qed

lemma map_of_filter_value:
  "distinct (map fst s) \<Longrightarrow>
   map_of (filter (\<lambda>(k, e). P e) s) k =
     (case map_of s k of None \<Rightarrow> None | Some e \<Rightarrow> if P e then Some e else None)"
proof (induction s)
  case Nil
  then show ?case by simp
next
  case (Cons x s)
  obtain k0 e0 where x: "x = (k0, e0)" by (cases x)
  from Cons.prems x have notin: "k0 \<notin> fst ` set s" and d: "distinct (map fst s)"
    by simp_all
  from notin have "k0 \<notin> fst ` set (filter (\<lambda>(k, e). P e) s)"
    by force
  then have none: "map_of (filter (\<lambda>(k, e). P e) s) k0 = None"
    by (simp add: map_of_eq_None_iff)
  show ?case
    using Cons.IH [OF d] none by (simp add: x)
qed

text \<open>
  C6. The sweep removes exactly the expired entries.  For every well-formed store and
  clock reading, \<open>cleanup\<close> ends without a \<open>TypeError\<close>; the store it leaves holds, in
  their order, the entries that are not expired (\<open>now > resetTime\<close> is false), each with
  its \<open>count\<close> and \<open>resetTime\<close> as before, and nothing else: looking a key up gives
  nothing when its entry was expired and the old entry otherwise.  The configuration is
  untouched.
\<close>

theorem sweep_removes_exactly_expired:
  assumes "wf_store (store rl)"
  shows "\<exists>rl'. cleanup rl now = Inr rl'
     \<and> store rl' = filter (\<lambda>(k, e). \<not> now > resetTime e) (store rl)
     \<and> maxRequests rl' = maxRequests rl \<and> windowMs rl' = windowMs rl
     \<and> wf_store (store rl')
     \<and> (\<forall>k. map_of (store rl') k =
           (case map_of (store rl) k of
              None \<Rightarrow> None
            | Some e \<Rightarrow> if now > resetTime e then None else Some e))"
proof -
  let ?rl' = "rl\<lparr>store := filter (\<lambda>(k, e). \<not> resetTime e < now) (store rl)\<rparr>"
  have d: "distinct (map fst (store rl))"
    using assms by (simp add: wf_store_def)
  have c: "cleanup rl now = Inr ?rl'"
    using assms by (rule cleanup_filter)
  have wf: "wf_store (store ?rl')"
    using d by (simp add: wf_store_def distinct_map_filter)
  have look: "\<forall>k. map_of (store ?rl') k =
           (case map_of (store rl) k of
              None \<Rightarrow> None
            | Some e \<Rightarrow> if now > resetTime e then None else Some e)"
    using map_of_filter_value [OF d, of "\<lambda>e. \<not> resetTime e < now"]
    by (simp split: option.splits)
  show ?thesis
    using c wf look by simp
qed

theorem sweep_removes_exactly_expired_witness:
  "wf_store [(js ''10.0.0.7'', \<lparr>count = 3, resetTime = 1005\<rparr>),
             (js ''10.0.0.8'', \<lparr>count = 1, resetTime = 2000\<rparr>),
             (js ''unknown'', \<lparr>count = 2, resetTime = 1999\<rparr>)]
   \<and> cleanup \<lparr>store = [(js ''10.0.0.7'', \<lparr>count = 3, resetTime = 1005\<rparr>),
                        (js ''10.0.0.8'', \<lparr>count = 1, resetTime = 2000\<rparr>),
                        (js ''unknown'', \<lparr>count = 2, resetTime = 1999\<rparr>)],
               maxRequests = 500, windowMs = 900000\<rparr> 2000
      = Inr \<lparr>store = [(js ''10.0.0.8'', \<lparr>count = 1, resetTime = 2000\<rparr>)],
               maxRequests = 500, windowMs = 900000\<rparr>"
proof -
  have wf: "wf_store (store \<lparr>store = [(js ''10.0.0.7'', \<lparr>count = 3, resetTime = 1005\<rparr>),
                        (js ''10.0.0.8'', \<lparr>count = 1, resetTime = 2000\<rparr>),
                        (js ''unknown'', \<lparr>count = 2, resetTime = 1999\<rparr>)],
               maxRequests = 500, windowMs = 900000\<rparr>)"
    by (simp add: wf_store_def js_def)
  show ?thesis
    using wf sweep_removes_exactly_expired [OF wf, of 2000] by auto
qed


section \<open>The invariant of the store\<close>

lemma set_update_cases:
  "x \<in> set (AList.update k v al) \<Longrightarrow> x = (k, v) \<or> x \<in> set al"
  by (induction al) (auto split: if_splits)

lemma middleware_preserves_invariant:
  assumes M: "1 \<le> maxRequests rl"
    and wf: "wf_store (store rl)"
    and inv: "\<forall>(k, e) \<in> set (store rl). 1 \<le> count e \<and> count e \<le> maxRequests rl"
  shows "maxRequests (snd (middleware rl req now)) = maxRequests rl
     \<and> windowMs (snd (middleware rl req now)) = windowMs rl
     \<and> wf_store (store (snd (middleware rl req now)))
     \<and> (\<forall>(k, e) \<in> set (store (snd (middleware rl req now))).
           1 \<le> count e \<and> count e \<le> maxRequests rl)"
proof (cases "map_of (store rl) (request_key req)")
  case None
  show ?thesis
  proof (cases "request_key req \<in> set Object_prototype_names")
    case True
    show ?thesis
      unfolding middleware_member [OF None True]
      using wf inv by simp
  next
    case False
    show ?thesis
      unfolding middleware_fresh [OF None False]
      using M wf inv by (auto simp: wf_store_def distinct_update dest!: set_update_cases)
  qed
next
  case (Some e)
  then have mem: "(request_key req, e) \<in> set (store rl)"
    by (rule map_of_SomeD)
  with inv have e: "1 \<le> count e" "count e \<le> maxRequests rl"
    by auto
  consider (expired) "resetTime e < now"
    | (room) "now \<le> resetTime e" "count e < maxRequests rl"
    | (full) "now \<le> resetTime e" "maxRequests rl \<le> count e"
    by linarith
  then show ?thesis
  proof cases
    case expired
    show ?thesis
      unfolding middleware_expired [OF Some expired]
      using M wf inv by (auto simp: wf_store_def distinct_update dest!: set_update_cases)
  next
    case room
    show ?thesis
      unfolding middleware_increment [OF Some room]
      using M wf inv e room(2)
      by (auto simp: wf_store_def distinct_update dest!: set_update_cases)
  next
    case full
    show ?thesis
      unfolding middleware_denied [OF Some full]
      using wf inv by simp
  qed
qed

lemma run_preserves_invariant:
  "1 \<le> maxRequests rl \<Longrightarrow> wf_store (store rl) \<Longrightarrow>
   \<forall>(k, e) \<in> set (store rl). 1 \<le> count e \<and> count e \<le> maxRequests rl \<Longrightarrow>
   \<exists>rl'. run rl evs = Inr rl' \<and> maxRequests rl' = maxRequests rl \<and> windowMs rl' = windowMs rl
      \<and> wf_store (store rl')
      \<and> (\<forall>(k, e) \<in> set (store rl'). 1 \<le> count e \<and> count e \<le> maxRequests rl)"
proof (induction evs arbitrary: rl)
  case Nil
  then show ?case by simp
next
  case (Cons ev evs)
  show ?case
  proof (cases ev)
    case (Check req now)
    let ?rl1 = "snd (middleware rl req now)"
    note step = middleware_preserves_invariant [OF Cons.prems, of req now]
    from step have "1 \<le> maxRequests ?rl1" "wf_store (store ?rl1)"
      "\<forall>(k, e) \<in> set (store ?rl1). 1 \<le> count e \<and> count e \<le> maxRequests ?rl1"
      using Cons.prems(1) by simp_all
    from Cons.IH [OF this] step show ?thesis
      by (simp add: Check)
  next
    case (Sweep now)
    let ?rl1 = "rl\<lparr>store := filter (\<lambda>(k, e). \<not> resetTime e < now) (store rl)\<rparr>"
    have c: "cleanup rl now = Inr ?rl1"
      using Cons.prems(2) by (rule cleanup_filter)
    have "1 \<le> maxRequests ?rl1" "wf_store (store ?rl1)"
      "\<forall>(k, e) \<in> set (store ?rl1). 1 \<le> count e \<and> count e \<le> maxRequests ?rl1"
      using Cons.prems by (auto simp: wf_store_def distinct_map_filter)
    from Cons.IH [OF this] show ?thesis
      by (simp add: Sweep c)
  qed
qed

text \<open>
  C7. Store invariant.  Start from \<open>new RateLimiter(M, w)\<close> with \<open>M\<close> a positive
  integer (the store is empty) and run any sequence of requests and cleanups, with any
  clock readings.  The run ends without error, and every entry of the store it leaves
  has \<open>1 \<le> count \<le> M\<close> (whatever \<open>now\<close> is, so in particular while \<open>now < resetTime\<close>).
\<close>

theorem store_invariant:
  assumes "1 \<le> M"
  shows "\<exists>rl. run (new_RateLimiter (Some M) w) evs = Inr rl
     \<and> maxRequests rl = M
     \<and> wf_store (store rl)
     \<and> (\<forall>(k, e) \<in> set (store rl). 1 \<le> count e \<and> count e \<le> M)"
proof -
  let ?rl = "new_RateLimiter (Some M) w"
  have "1 \<le> maxRequests ?rl" "wf_store (store ?rl)"
    "\<forall>(k, e) \<in> set (store ?rl). 1 \<le> count e \<and> count e \<le> maxRequests ?rl"
    using assms by (simp_all add: new_RateLimiter_def wf_store_def)
  from run_preserves_invariant [OF this, of evs]
  obtain rl' where "run ?rl evs = Inr rl'" "maxRequests rl' = maxRequests ?rl"
    "wf_store (store rl')"
    "\<forall>(k, e) \<in> set (store rl'). 1 \<le> count e \<and> count e \<le> maxRequests ?rl"
    by blast
  moreover have "maxRequests ?rl = M"
    by (simp add: new_RateLimiter_def)
  ultimately show ?thesis
    by auto
qed

theorem store_invariant_witness:
  "(1::int) \<le> 2
   \<and> run (new_RateLimiter (Some 2) (Some 1000))
        [Check \<lparr>ip = Some (js ''10.0.0.7''), body = [], params = []\<rparr> 5,
         Check \<lparr>ip = None, body = [], params = []\<rparr> 600,
         Check \<lparr>ip = Some (js ''10.0.0.7''), body = [], params = []\<rparr> 700,
         Check \<lparr>ip = Some (js ''10.0.0.7''), body = [], params = []\<rparr> 800,
         Sweep 1500,
         Check \<lparr>ip = None, body = [], params = []\<rparr> 1600]
      = Inr \<lparr>store = [(js ''unknown'', \<lparr>count = 2, resetTime = 1600\<rparr>)],
               maxRequests = 2, windowMs = 1000\<rparr>
   \<and> 1 \<le> count \<lparr>count = 2, resetTime = 1600\<rparr>
   \<and> count \<lparr>count = 2, resetTime = 1600\<rparr> \<le> 2"
proof -
  let ?evs = "[Check \<lparr>ip = Some (js ''10.0.0.7''), body = [], params = []\<rparr> 5,
         Check \<lparr>ip = None, body = [], params = []\<rparr> 600,
         Check \<lparr>ip = Some (js ''10.0.0.7''), body = [], params = []\<rparr> 700,
         Check \<lparr>ip = Some (js ''10.0.0.7''), body = [], params = []\<rparr> 800,
         Sweep 1500,
         Check \<lparr>ip = None, body = [], params = []\<rparr> 1600]"
  have r: "run (new_RateLimiter (Some 2) (Some 1000)) ?evs
      = Inr \<lparr>store = [(js ''unknown'', \<lparr>count = 2, resetTime = 1600\<rparr>)],
               maxRequests = 2, windowMs = 1000\<rparr>"
    by (simp add: new_RateLimiter_def middleware_def Let_def store_get_def Object_prototype_names_def
        cleanup_def request_key_def js_def)
  have le: "(1::int) \<le> 2"
    by simp
  show ?thesis
    using le r store_invariant [OF le, of "Some 1000" ?evs] by auto
qed


section \<open>Independence across keys\<close>

lemma middleware_other_key:
  "request_key req \<noteq> k \<Longrightarrow>
   map_of (store (snd (middleware rl req now))) k = map_of (store rl) k
   \<and> maxRequests (snd (middleware rl req now)) = maxRequests rl
   \<and> windowMs (snd (middleware rl req now)) = windowMs rl"
  by (auto simp: middleware_def store_get_def Let_def update_conv' split: option.splits)

lemma middleware_own_entry_only:
  "map_of (store rl2) (request_key req) = map_of (store rl) (request_key req) \<Longrightarrow>
   maxRequests rl2 = maxRequests rl \<Longrightarrow> windowMs rl2 = windowMs rl \<Longrightarrow>
   fst (middleware rl2 req now) = fst (middleware rl req now)
   \<and> map_of (store (snd (middleware rl2 req now))) (request_key req) =
       map_of (store (snd (middleware rl req now))) (request_key req)"
  by (auto simp: middleware_def store_get_def Let_def update_conv' split: option.splits)

lemma checks_other_key:
  "\<forall>(r, t) \<in> set calls. request_key r \<noteq> k \<Longrightarrow>
   map_of (store (snd (checks rl calls))) k = map_of (store rl) k
   \<and> maxRequests (snd (checks rl calls)) = maxRequests rl
   \<and> windowMs (snd (checks rl calls)) = windowMs rl"
proof (induction calls arbitrary: rl)
  case Nil
  then show ?case by simp
next
  case (Cons c calls)
  obtain r t where c: "c = (r, t)" by (cases c)
  from Cons.prems c have r: "request_key r \<noteq> k"
    and rest: "\<forall>(r, t) \<in> set calls. request_key r \<noteq> k"
    by auto
  show ?case
    using Cons.IH [OF rest, of "snd (middleware rl r t)"] middleware_other_key [OF r, of rl t]
    unfolding c snd_checks_Cons by simp
qed

text \<open>
  C9. Independence across keys.  A request of key A does not modify the entry of another
  key B: looking B up gives the same after the call as before.  It does not read it
  either: its outcome and the entry it leaves for A are the same in any two limiters
  with the same configuration and the same entry for A, whatever they hold for B.  Hence
  after any run of requests of keys other than B (saturating A, for instance), a request
  of key B gets the outcome it would have got without that run.
\<close>

theorem independence_across_keys:
  "(request_key reqA \<noteq> kB \<longrightarrow>
      map_of (store (snd (middleware rl reqA now))) kB = map_of (store rl) kB)
   \<and> (map_of (store rl2) (request_key reqA) = map_of (store rl) (request_key reqA)
        \<and> maxRequests rl2 = maxRequests rl \<and> windowMs rl2 = windowMs rl \<longrightarrow>
      fst (middleware rl2 reqA now) = fst (middleware rl reqA now)
      \<and> map_of (store (snd (middleware rl2 reqA now))) (request_key reqA) =
          map_of (store (snd (middleware rl reqA now))) (request_key reqA))
   \<and> ((\<forall>(r, t) \<in> set calls. request_key r \<noteq> request_key reqB) \<longrightarrow>
      fst (middleware (snd (checks rl calls)) reqB now) = fst (middleware rl reqB now))"
proof (intro conjI impI)
  assume "request_key reqA \<noteq> kB"
  then show "map_of (store (snd (middleware rl reqA now))) kB = map_of (store rl) kB"
    using middleware_other_key by blast
next
  assume a: "map_of (store rl2) (request_key reqA) = map_of (store rl) (request_key reqA)
        \<and> maxRequests rl2 = maxRequests rl \<and> windowMs rl2 = windowMs rl"
  then show "fst (middleware rl2 reqA now) = fst (middleware rl reqA now)"
    using middleware_own_entry_only [of rl2 reqA rl now] by blast
  from a show "map_of (store (snd (middleware rl2 reqA now))) (request_key reqA) =
          map_of (store (snd (middleware rl reqA now))) (request_key reqA)"
    using middleware_own_entry_only [of rl2 reqA rl now] by blast
next
  assume "\<forall>(r, t) \<in> set calls. request_key r \<noteq> request_key reqB"
  from checks_other_key [OF this, of rl]
  show "fst (middleware (snd (checks rl calls)) reqB now) = fst (middleware rl reqB now)"
    using middleware_own_entry_only [of "snd (checks rl calls)" reqB rl now] by blast
qed

theorem independence_across_keys_witness:
  "request_key \<lparr>ip = Some (js ''10.0.0.7''), body = [], params = []\<rparr> \<noteq> js ''10.0.0.8''
   \<and> fst (checks (new_RateLimiter (Some 1) (Some 1000))
        [(\<lparr>ip = Some (js ''10.0.0.7''), body = [], params = []\<rparr>, 5),
         (\<lparr>ip = Some (js ''10.0.0.7''), body = [], params = []\<rparr>, 6)])
      = [Next \<lparr>ip = Some (js ''10.0.0.7''), body = [], params = []\<rparr>,
         Json 429 False ''Too many requests'']
   \<and> map_of (store (snd (middleware (new_RateLimiter (Some 1) (Some 1000))
        \<lparr>ip = Some (js ''10.0.0.7''), body = [], params = []\<rparr> 5))) (js ''10.0.0.8'') = None
   \<and> fst (middleware (snd (checks (new_RateLimiter (Some 1) (Some 1000))
        [(\<lparr>ip = Some (js ''10.0.0.7''), body = [], params = []\<rparr>, 5),
         (\<lparr>ip = Some (js ''10.0.0.7''), body = [], params = []\<rparr>, 6)]))
        \<lparr>ip = Some (js ''10.0.0.8''), body = [], params = []\<rparr> 7)
      = Next \<lparr>ip = Some (js ''10.0.0.8''), body = [], params = []\<rparr>"
proof -
  let ?rl = "new_RateLimiter (Some 1) (Some 1000)"
  let ?a = "\<lparr>ip = Some (js ''10.0.0.7''), body = [], params = []\<rparr>"
  let ?b = "\<lparr>ip = Some (js ''10.0.0.8''), body = [], params = []\<rparr>"
  have ne: "request_key ?a \<noteq> js ''10.0.0.8''"
    by (simp add: request_key_def js_def)
  have others: "\<forall>(r, t) \<in> set [(?a, 5), (?a, 6)]. request_key r \<noteq> request_key ?b"
    by (simp add: request_key_def js_def)
  have sat: "fst (checks ?rl [(?a, 5), (?a, 6)]) = [Next ?a, Json 429 False ''Too many requests'']"
    by (simp add: new_RateLimiter_def middleware_def Let_def store_get_def Object_prototype_names_def
        request_key_def js_def)
  have b0: "fst (middleware ?rl ?b 7) = Next ?b"
    by (simp add: new_RateLimiter_def middleware_def Let_def store_get_def Object_prototype_names_def
        request_key_def js_def)
  have s0: "map_of (store ?rl) (js ''10.0.0.8'') = None"
    by (simp add: new_RateLimiter_def)
  note th = independence_across_keys [of ?a "js ''10.0.0.8''" ?rl 5 ?rl "[(?a, 5), (?a, 6)]" ?b]
  have one: "map_of (store (snd (middleware ?rl ?a 5))) (js ''10.0.0.8'') = None"
    using th ne s0 by simp
  have two: "fst (middleware (snd (checks ?rl [(?a, 5), (?a, 6)])) ?b 7) = Next ?b"
    using independence_across_keys [of ?a "js ''10.0.0.8''" ?rl 7 ?rl "[(?a, 5), (?a, 6)]" ?b]
      others b0 by simp
  show ?thesis
    using ne sat one two by blast
qed

section \<open>Requests without an address\<close>

text \<open>
  C10. Shared bucket of the unidentifiable clients.  A request whose \<open>req.ip\<close> is
  \<open>undefined\<close> or empty is throttled under the key \<open>'unknown'\<close>.  So such requests
  count together: from a store without an entry for \<open>'unknown'\<close>, with
  \<open>maxRequests = N\<close> positive, \<open>N + 1\<close> requests without an address inside one window
  get \<open>N\<close> times \<open>next()\<close> and then the 429, and the one entry \<open>'unknown'\<close> has counted
  to \<open>N\<close>.
\<close>

theorem unidentified_clients_share_one_bucket:
  "(ip req = None \<or> ip req = Some [] \<longrightarrow> request_key req = js ''unknown'')
   \<and> (map_of (store rl) (js ''unknown'') = None \<and> maxRequests rl = int N \<and> 0 < N
        \<and> length calls = N
        \<and> (\<forall>(r, t) \<in> set ((r0, t0) # calls).
              (ip r = None \<or> ip r = Some []) \<and> t \<le> t0 + windowMs rl) \<longrightarrow>
      fst (checks rl ((r0, t0) # calls)) =
        map (Next \<circ> fst) (take N ((r0, t0) # calls)) @ [Json 429 False ''Too many requests'']
      \<and> map_of (store (snd (checks rl ((r0, t0) # calls)))) (js ''unknown'') =
          Some \<lparr>count = int N, resetTime = t0 + windowMs rl\<rparr>)"
proof (intro conjI impI)
  have key: "\<And>r. ip r = None \<or> ip r = Some [] \<Longrightarrow> request_key r = js ''unknown''"
    by (auto simp: request_key_def)
  {
    assume "ip req = None \<or> ip req = Some []"
    then show "request_key req = js ''unknown''"
      by (rule key)
  }
  assume a: "map_of (store rl) (js ''unknown'') = None \<and> maxRequests rl = int N \<and> 0 < N
        \<and> length calls = N
        \<and> (\<forall>(r, t) \<in> set ((r0, t0) # calls).
              (ip r = None \<or> ip r = Some []) \<and> t \<le> t0 + windowMs rl)"
  then have k0: "request_key r0 = js ''unknown''"
    and keys: "\<forall>(r, t) \<in> set calls. request_key r = js ''unknown'' \<and> t \<le> t0 + windowMs rl"
    using key by auto
  from a have fresh: "map_of (store rl) (js ''unknown'') = None"
    and N: "maxRequests rl = int N" "0 < N" and len: "length calls = N"
    by blast+
  show "fst (checks rl ((r0, t0) # calls)) =
        map (Next \<circ> fst) (take N ((r0, t0) # calls)) @ [Json 429 False ''Too many requests'']"
    using fresh unknown_is_no_member N len k0 keys by (rule checks_saturation)
  from checks_from_fresh_entry [OF fresh unknown_is_no_member k0 keys]
  show "map_of (store (snd (checks rl ((r0, t0) # calls)))) (js ''unknown'') =
          Some \<lparr>count = int N, resetTime = t0 + windowMs rl\<rparr>"
    using N len by auto
qed

theorem unidentified_clients_share_one_bucket_witness:
  "fst (checks (new_RateLimiter (Some 2) (Some 1000))
        [(\<lparr>ip = None, body = [], params = []\<rparr>, 5),
         (\<lparr>ip = Some [], body = [], params = []\<rparr>, 600),
         (\<lparr>ip = None, body = [(js ''question'', JNull)], params = []\<rparr>, 1005)]) =
      [Next \<lparr>ip = None, body = [], params = []\<rparr>,
       Next \<lparr>ip = Some [], body = [], params = []\<rparr>,
       Json 429 False ''Too many requests'']
   \<and> map_of (store (snd (checks (new_RateLimiter (Some 2) (Some 1000))
        [(\<lparr>ip = None, body = [], params = []\<rparr>, 5),
         (\<lparr>ip = Some [], body = [], params = []\<rparr>, 600),
         (\<lparr>ip = None, body = [(js ''question'', JNull)], params = []\<rparr>, 1005)])))
        (js ''unknown'') = Some \<lparr>count = 2, resetTime = 1005\<rparr>"
  using unidentified_clients_share_one_bucket [of
      "\<lparr>ip = None, body = [], params = []\<rparr>"
      "new_RateLimiter (Some 2) (Some 1000)" 2
      "[(\<lparr>ip = Some [], body = [], params = []\<rparr>, 600),
        (\<lparr>ip = None, body = [(js ''question'', JNull)], params = []\<rparr>, 1005)]"
      "\<lparr>ip = None, body = [], params = []\<rparr>" 5]
  by (simp add: new_RateLimiter_def)


section \<open>validateSymbol\<close>

lemma symbol_regex_test_iff:
  "symbol_regex_test s \<longleftrightarrow> s \<noteq> [] \<and> (\<forall>c \<in> set s. symbol_class c)"
  by (induction s rule: symbol_regex_test.induct) auto

text \<open>
  C8. The contract of \<open>validateSymbol\<close>.  The reply is 400 with \<open>'Symbol is required'\<close>
  (reason missing) when the route parameter \<open>symbol\<close> is absent or empty; 400 with
  \<open>'Invalid symbol format'\<close> (reason invalid-format) when it holds a code unit outside
  \<open>A-Z\<close>, \<open>a-z\<close>, \<open>0-9\<close> and \<open>-\<close>; otherwise \<open>next()\<close> is called with the request as
  it came, the symbol in the case it was written in.
\<close>

theorem validateSymbol_contract:
  "validateSymbol req =
     (case map_of (params req) (js ''symbol'') of
        None \<Rightarrow> Json 400 False ''Symbol is required''
      | Some s \<Rightarrow>
          if s = [] then Json 400 False ''Symbol is required''
          else if \<exists>c \<in> set s. \<not> ((0x41 \<le> c \<and> c \<le> 0x5A) \<or> (0x61 \<le> c \<and> c \<le> 0x7A)
                                  \<or> (0x30 \<le> c \<and> c \<le> 0x39) \<or> c = 0x2D)
          then Json 400 False ''Invalid symbol format''
          else Next req)"
  by (auto simp: validateSymbol_def symbol_regex_test_iff symbol_class_def split: option.splits)

theorem validateSymbol_contract_witness:
  "validateSymbol \<lparr>ip = None, body = [], params = [(js ''symbol'', js ''AaPl-7'')]\<rparr>
     = Next \<lparr>ip = None, body = [], params = [(js ''symbol'', js ''AaPl-7'')]\<rparr>
   \<and> validateSymbol \<lparr>ip = None, body = [], params = [(js ''symbol'', js ''BTC/USD'')]\<rparr>
     = Json 400 False ''Invalid symbol format''
   \<and> validateSymbol \<lparr>ip = None, body = [], params = [(js ''symbol'', [])]\<rparr>
     = Json 400 False ''Symbol is required''
   \<and> validateSymbol \<lparr>ip = None, body = [], params = []\<rparr>
     = Json 400 False ''Symbol is required''"
proof -
  have 1: "validateSymbol \<lparr>ip = None, body = [], params = [(js ''symbol'', js ''AaPl-7'')]\<rparr>
     = Next \<lparr>ip = None, body = [], params = [(js ''symbol'', js ''AaPl-7'')]\<rparr>"
    unfolding validateSymbol_contract [of "\<lparr>ip = None, body = [], params = [(js ''symbol'', js ''AaPl-7'')]\<rparr>"]
    by (simp add: js_def)
  have 2: "validateSymbol \<lparr>ip = None, body = [], params = [(js ''symbol'', js ''BTC/USD'')]\<rparr>
     = Json 400 False ''Invalid symbol format''"
    unfolding validateSymbol_contract [of "\<lparr>ip = None, body = [], params = [(js ''symbol'', js ''BTC/USD'')]\<rparr>"]
    by (simp add: js_def)
  have 3: "validateSymbol \<lparr>ip = None, body = [], params = [(js ''symbol'', [])]\<rparr>
     = Json 400 False ''Symbol is required''"
    unfolding validateSymbol_contract [of "\<lparr>ip = None, body = [], params = [(js ''symbol'', [])]\<rparr>"]
    by simp
  have 4: "validateSymbol \<lparr>ip = None, body = [], params = []\<rparr>
     = Json 400 False ''Symbol is required''"
    unfolding validateSymbol_contract [of "\<lparr>ip = None, body = [], params = []\<rparr>"]
    by simp
  show ?thesis
    using 1 2 3 4 by blast
qed

section \<open>validateFinancialQuery\<close>

lemma dropWhile_all_iff:
  "(\<forall>c \<in> set (dropWhile P s). P c) \<longleftrightarrow> (\<forall>c \<in> set s. P c)"
proof
  assume all: "\<forall>c \<in> set (dropWhile P s). P c"
  have "dropWhile P s = []"
  proof (rule ccontr)
    assume ne: "dropWhile P s \<noteq> []"
    then have "\<not> P (hd (dropWhile P s))"
      by (rule hd_dropWhile)
    moreover have "hd (dropWhile P s) \<in> set (dropWhile P s)"
      using ne by (rule hd_in_set)
    ultimately show False
      using all by blast
  qed
  then show "\<forall>c \<in> set s. P c"
    by (simp only: dropWhile_eq_Nil_conv)
next
  assume "\<forall>c \<in> set s. P c"
  then have eq: "dropWhile P s = []"
    by (simp only: dropWhile_eq_Nil_conv)
  show "\<forall>c \<in> set (dropWhile P s). P c"
    unfolding eq by simp
qed

lemma trim_empty_iff:
  "trim s = [] \<longleftrightarrow> (\<forall>c \<in> set s. is_white_space c)"
proof -
  have "trim s = [] \<longleftrightarrow> (\<forall>c \<in> set (dropWhile is_white_space s). is_white_space c)"
    unfolding trim_def by (simp only: rev_is_Nil_conv dropWhile_eq_Nil_conv set_rev)
  then show ?thesis
    by (simp only: dropWhile_all_iff)
qed

lemma falsy_values:
  "\<not> truthy v \<longleftrightarrow>
     v = JUndefined \<or> v = JNull \<or> v = JBoolean False \<or> v = JNumber 0 \<or> v = JString []"
  by (cases v) auto

text \<open>
  C4, as the specification states it, fails.  With \<open>{question: 0}\<close> the field is present
  and not text, which the specification classifies wrong-type; the source answers
  \<open>'Question is required'\<close> (missing), since \<open>!question\<close> holds of every falsy value.
  With \<open>{question: ""}\<close> the field is text of trimmed length zero, which the
  specification classifies empty; the source answers \<open>'Question is required'\<close> again.
\<close>

theorem validateQuestion_counterexample:
  "validateFinancialQuery \<lparr>ip = None, body = [(js ''question'', JNumber 0)], params = []\<rparr>
     = Json 400 False ''Question is required''
   \<and> spec_validateQuestion \<lparr>ip = None, body = [(js ''question'', JNumber 0)], params = []\<rparr>
     = Json 400 False ''Question must be a string''
   \<and> validateFinancialQuery \<lparr>ip = None, body = [(js ''question'', JString [])], params = []\<rparr>
     = Json 400 False ''Question is required''
   \<and> spec_validateQuestion \<lparr>ip = None, body = [(js ''question'', JString [])], params = []\<rparr>
     = Json 400 False ''Question cannot be empty''"
  by (simp add: validateFinancialQuery_def spec_validateQuestion_def get_prop_def trim_def)

text \<open>
  C4, amended.  \<open>validateFinancialQuery\<close> replies 400 with \<open>'Question is required'\<close>
  (missing) when \<open>question\<close> is absent or falsy (\<open>undefined\<close>, \<open>null\<close>, \<open>false\<close>, \<open>0\<close> or
  the empty string); 400 with \<open>'Question must be a string'\<close> (wrong-type) when it is
  truthy and not a string; 400 with \<open>'Question cannot be empty'\<close> (empty) when it is a
  non-empty string of white space only, however long; 400 with \<open>'Question is too long
  (max 1000 characters)'\<close> (too-long) when it is a string with a code unit that is not
  white space and more than 1000 code units; and calls \<open>next()\<close> otherwise.  One reason is
  reported, the first in the order missing, wrong-type, empty, too-long.  Whenever
  \<open>question\<close> is absent or truthy this is the classification of the specification.
\<close>

theorem validateQuestion_classification:
  "validateFinancialQuery req =
     (case map_of (body req) (js ''question'') of
        None \<Rightarrow> Json 400 False ''Question is required''
      | Some v \<Rightarrow>
          if v = JUndefined \<or> v = JNull \<or> v = JBoolean False \<or> v = JNumber 0 \<or> v = JString []
          then Json 400 False ''Question is required''
          else
            (case v of
               JString s \<Rightarrow>
                 if \<forall>c \<in> set s. is_white_space c then Json 400 False ''Question cannot be empty''
                 else if 1000 < length s then
                   Json 400 False ''Question is too long (max 1000 characters)''
                 else Next req
             | _ \<Rightarrow> Json 400 False ''Question must be a string''))
   \<and> ((\<forall>v. map_of (body req) (js ''question'') = Some v \<longrightarrow> truthy v)
        \<longrightarrow> validateFinancialQuery req = spec_validateQuestion req)"
proof (intro conjI impI)
  show "validateFinancialQuery req =
     (case map_of (body req) (js ''question'') of
        None \<Rightarrow> Json 400 False ''Question is required''
      | Some v \<Rightarrow>
          if v = JUndefined \<or> v = JNull \<or> v = JBoolean False \<or> v = JNumber 0 \<or> v = JString []
          then Json 400 False ''Question is required''
          else
            (case v of
               JString s \<Rightarrow>
                 if \<forall>c \<in> set s. is_white_space c then Json 400 False ''Question cannot be empty''
                 else if 1000 < length s then
                   Json 400 False ''Question is too long (max 1000 characters)''
                 else Next req
             | _ \<Rightarrow> Json 400 False ''Question must be a string''))"
  proof (cases "map_of (body req) (js ''question'')")
    case None
    then show ?thesis
      by (simp add: validateFinancialQuery_def get_prop_def)
  next
    case (Some v)
    show ?thesis
    proof (cases "truthy v")
      case False
      then show ?thesis
        using Some falsy_values [of v] by (simp add: validateFinancialQuery_def get_prop_def)
    next
      case True
      then show ?thesis
        using Some falsy_values [of v]
        by (cases v) (simp_all add: validateFinancialQuery_def get_prop_def trim_empty_iff)
    qed
  qed
next
  assume a: "\<forall>v. map_of (body req) (js ''question'') = Some v \<longrightarrow> truthy v"
  show "validateFinancialQuery req = spec_validateQuestion req"
  proof (cases "map_of (body req) (js ''question'')")
    case None
    then show ?thesis
      by (simp add: validateFinancialQuery_def spec_validateQuestion_def get_prop_def)
  next
    case (Some v)
    with a have "truthy v" by simp
    then show ?thesis
      using Some by (cases v) (simp_all add: validateFinancialQuery_def spec_validateQuestion_def get_prop_def)
  qed
qed

theorem validateQuestion_classification_witness:
  "validateFinancialQuery \<lparr>ip = None, body = [], params = []\<rparr>
     = Json 400 False ''Question is required''
   \<and> validateFinancialQuery \<lparr>ip = None, body = [(js ''question'', JNull)], params = []\<rparr>
     = Json 400 False ''Question is required''
   \<and> validateFinancialQuery \<lparr>ip = None, body = [(js ''question'', JNumber 42)], params = []\<rparr>
     = Json 400 False ''Question must be a string''
   \<and> validateFinancialQuery
        \<lparr>ip = None, body = [(js ''question'', JString (replicate 1001 0x20))], params = []\<rparr>
     = Json 400 False ''Question cannot be empty''
   \<and> validateFinancialQuery
        \<lparr>ip = None, body = [(js ''question'', JString (replicate 1001 0x78))], params = []\<rparr>
     = Json 400 False ''Question is too long (max 1000 characters)''
   \<and> validateFinancialQuery
        \<lparr>ip = None, body = [(js ''question'', JString (js ''Should I buy gold?''))], params = []\<rparr>
     = Next \<lparr>ip = None, body = [(js ''question'', JString (js ''Should I buy gold?''))], params = []\<rparr>
   \<and> spec_validateQuestion
        \<lparr>ip = None, body = [(js ''question'', JString (js ''Should I buy gold?''))], params = []\<rparr>
     = Next \<lparr>ip = None, body = [(js ''question'', JString (js ''Should I buy gold?''))], params = []\<rparr>"
proof -
  have 1: "validateFinancialQuery \<lparr>ip = None, body = [], params = []\<rparr>
     = Json 400 False ''Question is required''"
    using validateQuestion_classification [of "\<lparr>ip = None, body = [], params = []\<rparr>"]
    by simp
  have 2: "validateFinancialQuery \<lparr>ip = None, body = [(js ''question'', JNull)], params = []\<rparr>
     = Json 400 False ''Question is required''"
    using validateQuestion_classification
      [of "\<lparr>ip = None, body = [(js ''question'', JNull)], params = []\<rparr>"]
    by simp
  have 3: "validateFinancialQuery \<lparr>ip = None, body = [(js ''question'', JNumber 42)], params = []\<rparr>
     = Json 400 False ''Question must be a string''"
    using validateQuestion_classification
      [of "\<lparr>ip = None, body = [(js ''question'', JNumber 42)], params = []\<rparr>"]
    by simp
  have 4: "validateFinancialQuery
        \<lparr>ip = None, body = [(js ''question'', JString (replicate 1001 0x20))], params = []\<rparr>
     = Json 400 False ''Question cannot be empty''"
    using validateQuestion_classification
      [of "\<lparr>ip = None, body = [(js ''question'', JString (replicate 1001 0x20))], params = []\<rparr>"]
    by (simp add: is_white_space_def)
  have 5: "validateFinancialQuery
        \<lparr>ip = None, body = [(js ''question'', JString (replicate 1001 0x78))], params = []\<rparr>
     = Json 400 False ''Question is too long (max 1000 characters)''"
    using validateQuestion_classification
      [of "\<lparr>ip = None, body = [(js ''question'', JString (replicate 1001 0x78))], params = []\<rparr>"]
    by (simp add: is_white_space_def)
  have 6: "validateFinancialQuery
        \<lparr>ip = None, body = [(js ''question'', JString (js ''Should I buy gold?''))], params = []\<rparr>
     = Next \<lparr>ip = None, body = [(js ''question'', JString (js ''Should I buy gold?''))], params = []\<rparr>"
    using validateQuestion_classification
      [of "\<lparr>ip = None, body = [(js ''question'', JString (js ''Should I buy gold?''))], params = []\<rparr>"]
    by (simp add: is_white_space_def js_def)
  let ?gold = "\<lparr>ip = None, body = [(js ''question'', JString (js ''Should I buy gold?''))], params = []\<rparr>"
  have truthy: "\<forall>v. map_of (body ?gold) (js ''question'') = Some v \<longrightarrow> truthy v"
    by (simp add: js_def)
  have agree: "validateFinancialQuery ?gold = spec_validateQuestion ?gold"
    using validateQuestion_classification [of ?gold] truthy by blast
  have 7: "spec_validateQuestion ?gold = Next ?gold"
    using agree 6 by (simp only:)
  show ?thesis
    using 1 2 3 4 5 6 7 by blast
qed

end
